theory Spec2Isabelle
  imports Main "HOL-Library.Word" "HOL-Library.AList"
begin

section \<open>JavaScript strings\<close>

text \<open>
  A JavaScript string is a sequence of 16-bit code units; \<open>slice\<close>, \<open>trim\<close>,
  \<open>startsWith\<close> and the regular expression of \<open>gemini.js\<close> all work on code units.
  \<open>js\<close> writes an ASCII literal as such a sequence.
\<close>

type_synonym jschar = "16 word"
type_synonym jsstring = "jschar list"

definition js :: "string \<Rightarrow> jsstring" where
  "js s = map of_char s"

abbreviation ch :: "char \<Rightarrow> jschar" where
  "ch c \<equiv> of_char c"

definition newline :: jschar where
  "newline = 0x0A"

text \<open>\<open>s.startsWith(p)\<close>.\<close>

definition startsWith :: "jsstring \<Rightarrow> jsstring \<Rightarrow> bool" where
  "startsWith s p = (take (length p) s = p)"

text \<open>\<open>xs.join(sep)\<close> on an array of strings.\<close>

fun join :: "jsstring \<Rightarrow> jsstring list \<Rightarrow> jsstring" where
  "join sep [] = []"
| "join sep [x] = x"
| "join sep (x # y # ys) = x @ sep @ join sep (y # ys)"

text \<open>
  \<open>s.trim()\<close> removes the WhiteSpace and LineTerminator code units of ECMAScript from
  both ends.
\<close>

definition is_js_space :: "jschar \<Rightarrow> bool" where
  "is_js_space c =
     (c = 0x09 \<or> c = 0x0A \<or> c = 0x0B \<or> c = 0x0C \<or> c = 0x0D \<or> c = 0x20 \<or> c = 0xA0
      \<or> c = 0x1680 \<or> (0x2000 \<le> c \<and> c \<le> 0x200A) \<or> c = 0x2028 \<or> c = 0x2029
      \<or> c = 0x202F \<or> c = 0x205F \<or> c = 0x3000 \<or> c = 0xFEFF)"

definition trim :: "jsstring \<Rightarrow> jsstring" where
  "trim s = rev (dropWhile is_js_space (rev (dropWhile is_js_space s)))"

text \<open>A non-negative integer in a template literal: its decimal digits.\<close>

function show_nat :: "nat \<Rightarrow> jsstring" where
  "show_nat n =
     (if n < 10 then [of_nat (48 + n)] else show_nat (n div 10) @ [of_nat (48 + n mod 10)])"
  by pat_completeness auto
termination
  by (relation "measure (\<lambda>n. n)") auto

declare show_nat.simps [simp del]

section \<open>Errors and calls to collaborators\<close>

text \<open>
  A thrown exception or a rejected promise is the \<open>Inl\<close> of a sum; every error carries
  the \<open>message\<close> that \<open>handleSummarise\<close> shows.
\<close>

datatype error = Error (message: jsstring) | SyntaxError (message: jsstring)
  | TypeError (message: jsstring)

text \<open>The outbound request of \<open>summariseWithGemini\<close>: its URL and the prompt in its body.\<close>

record request =
  req_url :: jsstring
  req_prompt :: jsstring

record response =
  ok :: bool
  status :: nat
  body :: jsstring

text \<open>
  Every call to an external collaborator is logged, in order: the PDF parser, the OCR
  engine, the file's own text decoder, and the remote endpoint.
\<close>

datatype call = CallGetDocument | CallRecognize | CallFileText | CallFetch request

section \<open>Structured-document extraction (extractPdfText)\<close>

record text_item =
  str :: jsstring

record text_content =
  items :: "text_item list"

record pdf_page =
  getTextContent :: "error + text_content"

record pdf_document =
  numPages :: nat
  getPage :: "nat \<Rightarrow> error + pdf_page"

record ocr_data =
  ocr_text :: "jsstring option"

text \<open>
  The collaborators, as functions of the file's contents: \<open>getDocument\<close> of pdfjs-dist,
  \<open>Tesseract.recognize\<close>, \<open>file.text()\<close> and \<open>fetch\<close>.
\<close>

record 'b collaborators =
  getDocument :: "'b \<Rightarrow> error + pdf_document"
  recognize :: "'b \<Rightarrow> error + ocr_data"
  file_text :: "'b \<Rightarrow> error + jsstring"
  fetch :: "request \<Rightarrow> error + response"

record 'b submitted_file =
  ftype :: "jsstring option"
  fname :: jsstring
  fdata :: 'b

text \<open>
  The loop \<open>for (let p = 1; p <= pdf.numPages; p++)\<close>: \<open>chunks\<close> is the array built
  so far. A page that cannot be read rejects, which ends the extraction.
\<close>

function extract_pages :: "pdf_document \<Rightarrow> nat \<Rightarrow> jsstring list \<Rightarrow> error + jsstring list" where
  "extract_pages pdf p chunks =
     (if p \<le> numPages pdf then
        (case getPage pdf p of
           Inl e \<Rightarrow> Inl e
         | Inr page \<Rightarrow>
             (case getTextContent page of
                Inl e \<Rightarrow> Inl e
              | Inr content \<Rightarrow>
                  extract_pages pdf (p + 1) (chunks @ [join (js '' '') (map str (items content))])))
      else Inr chunks)"
  by pat_completeness auto
termination
  by (relation "measure (\<lambda>(pdf, p, chunks). Suc (numPages pdf) - p)") auto

declare extract_pages.simps [simp del]

definition extractPdfText ::
  "'b collaborators \<Rightarrow> 'b submitted_file \<Rightarrow> (error + jsstring) \<times> call list" where
  "extractPdfText eng file =
     (case getDocument eng (fdata file) of
        Inl e \<Rightarrow> (Inl e, [CallGetDocument])
      | Inr pdf \<Rightarrow>
          (case extract_pages pdf 1 [] of
             Inl e \<Rightarrow> (Inl e, [CallGetDocument])
           | Inr chunks \<Rightarrow> (Inr (join [newline, newline] chunks), [CallGetDocument])))"

section \<open>OCR (ocrImage)\<close>

text \<open>\<open>data.text || ""\<close>: an absent or empty text is the empty string.\<close>

definition ocrImage ::
  "'b collaborators \<Rightarrow> 'b submitted_file \<Rightarrow> (error + jsstring) \<times> call list" where
  "ocrImage eng file =
     (case recognize eng (fdata file) of
        Inl e \<Rightarrow> (Inl e, [CallRecognize])
      | Inr d \<Rightarrow> (Inr (case ocr_text d of None \<Rightarrow> [] | Some t \<Rightarrow> t), [CallRecognize]))"

section \<open>The extraction dispatcher (extractTextFromFile)\<close>

text \<open>
  \<open>fileToProcess.type\<close> may be absent (\<open>None\<close>): \<open>type === "application/pdf"\<close> is then
  false and \<open>type?.startsWith("image/")\<close> is undefined, which is falsy.
\<close>

definition extractTextFromFile ::
  "'b collaborators \<Rightarrow> 'b submitted_file \<Rightarrow> (error + jsstring) \<times> call list" where
  "extractTextFromFile eng fileToProcess =
     (if ftype fileToProcess = Some (js ''application/pdf'') then extractPdfText eng fileToProcess
      else if (case ftype fileToProcess of None \<Rightarrow> False | Some t \<Rightarrow> startsWith t (js ''image/''))
      then ocrImage eng fileToProcess
      else (file_text eng (fdata fileToProcess), [CallFileText]))"

section \<open>JSON values and JSON.parse\<close>

text \<open>
  The values \<open>JSON.parse\<close> and \<open>res.json()\<close> return. A number is kept as its
  literal (its value as a double is not needed here); an object is the list of its
  members in the order of their first appearance, each key once.
\<close>

datatype json = JNull | JBool bool | JNum jsstring | JStr jsstring
  | JArr "json list" | JObj "(jsstring \<times> json) list"

datatype token = TLBrace | TRBrace | TLBracket | TRBracket | TColon | TComma | TScalar json

text \<open>
  The lexer follows the JSON grammar of ECMA-404: four white-space characters, strings
  with the eight short escapes and \<open>\u\<close> followed by four hexadecimal digits (no raw control
  character), numbers, and the literals \<open>true\<close>, \<open>false\<close> and \<open>null\<close>.
\<close>

definition is_json_ws :: "jschar \<Rightarrow> bool" where
  "is_json_ws c = (c = 0x20 \<or> c = 0x09 \<or> c = 0x0A \<or> c = 0x0D)"

definition is_digit :: "jschar \<Rightarrow> bool" where
  "is_digit c = (0x30 \<le> c \<and> c \<le> 0x39)"

definition hex_value :: "jschar \<Rightarrow> jschar option" where
  "hex_value c =
     (if 0x30 \<le> c \<and> c \<le> 0x39 then Some (c - 0x30)
      else if 0x41 \<le> c \<and> c \<le> 0x46 then Some (c - 0x37)
      else if 0x61 \<le> c \<and> c \<le> 0x66 then Some (c - 0x57)
      else None)"

definition hex4 :: "jsstring \<Rightarrow> jschar option" where
  "hex4 hs =
     (case map hex_value hs of
        [Some a, Some b, Some c, Some d] \<Rightarrow> Some (a * 0x1000 + b * 0x100 + c * 0x10 + d)
      | _ \<Rightarrow> None)"

definition escape_char :: "jschar \<Rightarrow> jschar option" where
  "escape_char e =
     (if e = 0x22 then Some 0x22
      else if e = 0x5C then Some 0x5C
      else if e = 0x2F then Some 0x2F
      else if e = ch CHR ''b'' then Some 0x08
      else if e = ch CHR ''f'' then Some 0x0C
      else if e = ch CHR ''n'' then Some 0x0A
      else if e = ch CHR ''r'' then Some 0x0D
      else if e = ch CHR ''t'' then Some 0x09
      else None)"

fun lex_string :: "jsstring \<Rightarrow> (jsstring \<times> jsstring) option" where
  "lex_string [] = None"
| "lex_string (c # cs) =
     (if c = 0x22 then Some ([], cs)
      else if c = 0x5C then
        (case cs of
           [] \<Rightarrow> None
         | e # cs' \<Rightarrow>
             if e = ch CHR ''u'' then
               (case hex4 (take 4 cs') of
                  None \<Rightarrow> None
                | Some u \<Rightarrow> map_option (\<lambda>(s, r). (u # s, r)) (lex_string (drop 4 cs')))
             else
               (case escape_char e of
                  None \<Rightarrow> None
                | Some u \<Rightarrow> map_option (\<lambda>(s, r). (u # s, r)) (lex_string cs')))
      else if c < 0x20 then None
      else map_option (\<lambda>(s, r). (c # s, r)) (lex_string cs))"

text \<open>Numbers: \<open>-? (0 | [1-9][0-9]*) (. [0-9]+)? ([eE] [+-]? [0-9]+)?\<close>.\<close>

definition lex_int :: "jsstring \<Rightarrow> (jsstring \<times> jsstring) option" where
  "lex_int cs =
     (case cs of
        [] \<Rightarrow> None
      | d # ds \<Rightarrow>
          if d = 0x30 then Some ([d], ds)
          else if is_digit d then Some (d # takeWhile is_digit ds, dropWhile is_digit ds)
          else None)"

definition lex_frac :: "jsstring \<Rightarrow> (jsstring \<times> jsstring) option" where
  "lex_frac cs =
     (case cs of
        [] \<Rightarrow> Some ([], [])
      | d # ds \<Rightarrow>
          if d = 0x2E then
            (if takeWhile is_digit ds = [] then None
             else Some (d # takeWhile is_digit ds, dropWhile is_digit ds))
          else Some ([], cs))"

definition lex_exp :: "jsstring \<Rightarrow> (jsstring \<times> jsstring) option" where
  "lex_exp cs =
     (case cs of
        [] \<Rightarrow> Some ([], [])
      | e # es \<Rightarrow>
          if e = 0x65 \<or> e = 0x45 then
            (let sign = (case es of [] \<Rightarrow> [] | s # _ \<Rightarrow> if s = 0x2B \<or> s = 0x2D then [s] else []);
                 ds = drop (length sign) es
             in if takeWhile is_digit ds = [] then None
                else Some (e # sign @ takeWhile is_digit ds, dropWhile is_digit ds))
          else Some ([], cs))"

definition lex_number :: "jsstring \<Rightarrow> (jsstring \<times> jsstring) option" where
  "lex_number cs =
     (let sign = (case cs of [] \<Rightarrow> [] | s # _ \<Rightarrow> if s = 0x2D then [s] else [])
      in case lex_int (drop (length sign) cs) of
           None \<Rightarrow> None
         | Some (i, r1) \<Rightarrow>
             (case lex_frac r1 of
                None \<Rightarrow> None
              | Some (f, r2) \<Rightarrow>
                  (case lex_exp r2 of
                     None \<Rightarrow> None
                   | Some (e, r3) \<Rightarrow> Some (sign @ i @ f @ e, r3))))"

text \<open>The lexer: white space is skipped between tokens.\<close>

function lex :: "jsstring \<Rightarrow> token list option" where
  "lex [] = Some []"
| "lex (c # cs) =
     (if is_json_ws c then lex cs
      else if c = 0x7B then map_option ((#) TLBrace) (lex cs)
      else if c = 0x7D then map_option ((#) TRBrace) (lex cs)
      else if c = 0x5B then map_option ((#) TLBracket) (lex cs)
      else if c = 0x5D then map_option ((#) TRBracket) (lex cs)
      else if c = 0x3A then map_option ((#) TColon) (lex cs)
      else if c = 0x2C then map_option ((#) TComma) (lex cs)
      else if c = 0x22 then
        (case lex_string cs of
           None \<Rightarrow> None
         | Some (s, r) \<Rightarrow> map_option ((#) (TScalar (JStr s))) (lex r))
      else if startsWith (c # cs) (js ''true'') then
        map_option ((#) (TScalar (JBool True))) (lex (drop 3 cs))
      else if startsWith (c # cs) (js ''false'') then
        map_option ((#) (TScalar (JBool False))) (lex (drop 4 cs))
      else if startsWith (c # cs) (js ''null'') then
        map_option ((#) (TScalar JNull)) (lex (drop 3 cs))
      else
        (case lex_number (c # cs) of
           None \<Rightarrow> None
         | Some (n, r) \<Rightarrow> map_option ((#) (TScalar (JNum n))) (lex r)))"
  by pat_completeness auto
termination
proof -
  have lex_string_length: "length r < Suc (length cs)"
    if "lex_string cs = Some (s, r)" for cs s r
    using that
  proof (induction cs arbitrary: s r rule: lex_string.induct)
    case 1
    then show ?case by simp
  next
    case (2 c cs)
    then show ?case
      by (fastforce split: if_splits list.splits option.splits)
  qed
  have lex_int_length: "length r < length cs" if "lex_int cs = Some (i, r)" for cs i r
    using that
    by (auto simp: lex_int_def length_dropWhile_le less_Suc_eq_le split: list.splits if_splits)
  have lex_frac_length: "length r \<le> length cs" if "lex_frac cs = Some (f, r)" for cs f r
    using that
    by (auto simp: lex_frac_def length_dropWhile_le le_SucI split: list.splits if_splits)
  have lex_exp_length: "length r \<le> length cs" if a: "lex_exp cs = Some (e, r)" for cs e r
  proof (cases cs)
    case Nil
    then show ?thesis using a by (simp add: lex_exp_def)
  next
    case (Cons x es)
    show ?thesis
    proof (cases "x = 0x65 \<or> x = 0x45")
      case False
      then show ?thesis using a Cons by (auto simp: lex_exp_def)
    next
      case True
      then obtain n where "r = dropWhile is_digit (drop n es)"
        using a Cons by (auto simp: lex_exp_def Let_def split: if_splits)
      then have "length r \<le> length es"
        using length_dropWhile_le [of is_digit "drop n es"] by simp
      then show ?thesis using Cons by simp
    qed
  qed
  have lex_number_length: "length r < length cs" if a: "lex_number cs = Some (n, r)" for cs n r
  proof -
    from a obtain sign i r1 f r2 e where
      i: "lex_int (drop (length (sign :: jsstring)) cs) = Some (i, r1)"
      and f: "lex_frac r1 = Some (f, r2)" and e: "lex_exp r2 = Some (e, r)"
      by (auto simp: lex_number_def Let_def split: option.splits)
    from lex_int_length [OF i] lex_frac_length [OF f] lex_exp_length [OF e]
    show ?thesis by simp
  qed
  show ?thesis
  proof (relation "measure length")
    fix c cs x2 s r
    assume "lex_string cs = Some x2" "(s, r) = x2"
    then show "(r, c # cs) \<in> measure length"
      using lex_string_length [of cs s r] by simp
  next
    fix c cs x2 n r
    assume "lex_number (c # cs) = Some x2" "(n, r) = x2"
    then show "(r, c # cs) \<in> measure length"
      using lex_number_length [of "c # cs" n r] by simp
  qed simp_all
qed

declare lex.simps [simp del]

text \<open>
  The parser: a pushdown automaton over the tokens. A frame is a container being built:
  an array with its elements so far, or an object with its members so far and the key
  whose value is being read. A repeated key keeps its first position and takes the last
  value, as a property assignment does.
\<close>

datatype frame = FArr "json list" | FObj "(jsstring \<times> json) list" "jsstring option"

datatype expect = EValue | EValueOrClose | EKeyOrClose | EKey | EColon | EAfter | EDone json

fun deliver :: "json \<Rightarrow> frame list \<Rightarrow> (expect \<times> frame list) option" where
  "deliver v [] = Some (EDone v, [])"
| "deliver v (FArr es # st) = Some (EAfter, FArr (es @ [v]) # st)"
| "deliver v (FObj ms (Some k) # st) = Some (EAfter, FObj (AList.update k v ms) None # st)"
| "deliver v (FObj ms None # st) = None"

fun start_value :: "token \<Rightarrow> frame list \<Rightarrow> (expect \<times> frame list) option" where
  "start_value (TScalar v) st = deliver v st"
| "start_value TLBracket st = Some (EValueOrClose, FArr [] # st)"
| "start_value TLBrace st = Some (EKeyOrClose, FObj [] None # st)"
| "start_value _ st = None"

fun close_array :: "frame list \<Rightarrow> (expect \<times> frame list) option" where
  "close_array (FArr es # st) = deliver (JArr es) st"
| "close_array _ = None"

fun close_object :: "frame list \<Rightarrow> (expect \<times> frame list) option" where
  "close_object (FObj ms None # st) = deliver (JObj ms) st"
| "close_object _ = None"

fun read_key :: "token \<Rightarrow> frame list \<Rightarrow> (expect \<times> frame list) option" where
  "read_key (TScalar (JStr k)) (FObj ms None # st) = Some (EColon, FObj ms (Some k) # st)"
| "read_key _ _ = None"

fun after_comma :: "frame list \<Rightarrow> (expect \<times> frame list) option" where
  "after_comma (FArr es # st) = Some (EValue, FArr es # st)"
| "after_comma (FObj ms None # st) = Some (EKey, FObj ms None # st)"
| "after_comma _ = None"

fun step :: "expect \<times> frame list \<Rightarrow> token \<Rightarrow> (expect \<times> frame list) option" where
  "step (EValue, st) t = start_value t st"
| "step (EValueOrClose, st) t = (if t = TRBracket then close_array st else start_value t st)"
| "step (EKeyOrClose, st) t = (if t = TRBrace then close_object st else read_key t st)"
| "step (EKey, st) t = read_key t st"
| "step (EColon, st) t = (if t = TColon then Some (EValue, st) else None)"
| "step (EAfter, st) t =
     (if t = TComma then after_comma st
      else if t = TRBracket then close_array st
      else if t = TRBrace then close_object st
      else None)"
| "step (EDone v, st) t = None"

fun run :: "expect \<times> frame list \<Rightarrow> token list \<Rightarrow> (expect \<times> frame list) option" where
  "run s [] = Some s"
| "run s (t # ts) = (case step s t of None \<Rightarrow> None | Some s' \<Rightarrow> run s' ts)"

definition parse_tokens :: "token list \<Rightarrow> json option" where
  "parse_tokens ts =
     (case run (EValue, []) ts of
        Some (EDone v, st) \<Rightarrow> Some v
      | _ \<Rightarrow> None)"

text \<open>
  \<open>JSON.parse(t)\<close>: the value, or a SyntaxError (whose message is the engine's own).
\<close>

definition JSON_parse :: "jsstring \<Rightarrow> error + json" where
  "JSON_parse t =
     (case lex t of
        None \<Rightarrow> Inl (SyntaxError (js ''Unexpected token in JSON''))
      | Some ts \<Rightarrow>
          (case parse_tokens ts of
             None \<Rightarrow> Inl (SyntaxError (js ''Unexpected token in JSON''))
           | Some v \<Rightarrow> Inr v))"

section \<open>The summarization client (gemini.js)\<close>

definition MODEL :: jsstring where
  "MODEL = js ''gemini-2.0-flash''"

definition BASE :: jsstring where
  "BASE = js ''https://generativelanguage.googleapis.com/v1beta''"

text \<open>
  \<open>KEY\<close> is \<open>import.meta.env.VITE_GEMINI_API_KEY\<close>: a string, or absent. \<open>!KEY\<close>
  holds for the absent key and for the empty string.
\<close>

definition mustKey :: "jsstring option \<Rightarrow> error + unit" where
  "mustKey KEY =
     (if KEY = None \<or> KEY = Some [] then
        Inl (Error (js ''Missing VITE_GEMINI_API_KEY in .env.local''))
      else Inr ())"

subsection \<open>The length directive\<close>

text \<open>
  \<open>{short: ..., medium: ..., long: ...}[length] || "..."\<close> is a property lookup on an
  object literal: it finds the three own properties and, for any other key, what the
  literal inherits from \<open>Object.prototype\<close>. An inherited member is a function (or,
  for \<open>__proto__\<close>, the prototype object): truthy, so \<open>||\<close> keeps it.
\<close>

definition approx :: jschar where
  "approx = 0x2248"

definition length_table :: "(jsstring \<times> jsstring) list" where
  "length_table =
     [(js ''short'', approx # js ''80-120 words''),
      (js ''medium'', approx # js ''150-250 words''),
      (js ''long'', approx # js ''300-450 words'')]"

definition Object_prototype_names :: "jsstring list" where
  "Object_prototype_names =
     map js [''constructor'', ''__defineGetter__'', ''__defineSetter__'', ''hasOwnProperty'',
       ''__lookupGetter__'', ''__lookupSetter__'', ''isPrototypeOf'', ''propertyIsEnumerable'',
       ''toString'', ''valueOf'', ''__proto__'', ''toLocaleString'']"

datatype target_value = TString jsstring | TInherited jsstring

definition table_lookup :: "jsstring \<Rightarrow> target_value option" where
  "table_lookup k =
     (case map_of length_table k of
        Some d \<Rightarrow> Some (TString d)
      | None \<Rightarrow> if k \<in> set Object_prototype_names then Some (TInherited k) else None)"

text \<open>The parameter default \<open>length = "medium"\<close> applies to an omitted length.\<close>

definition select_target :: "jsstring option \<Rightarrow> target_value" where
  "select_target length' =
     (let l = (case length' of None \<Rightarrow> js ''medium'' | Some l \<Rightarrow> l)
      in case table_lookup l of
           None \<Rightarrow> TString (approx # js ''150-250 words'')
         | Some (TString d) \<Rightarrow> if d = [] then TString (approx # js ''150-250 words'') else TString d
         | Some (TInherited m) \<Rightarrow> TInherited m)"

text \<open>
  \<open>${target}\<close> in the template: a string as it is; an inherited member as the engine
  prints it (here as V8 does; engines differ in the white space of a native function).
\<close>

definition render_target :: "target_value \<Rightarrow> jsstring" where
  "render_target t =
     (case t of
        TString s \<Rightarrow> s
      | TInherited m \<Rightarrow>
          if m = js ''__proto__'' then js ''[object Object]''
          else js ''function '' @ (if m = js ''constructor'' then js ''Object'' else m)
            @ js ''() { [native code] }'')"

subsection \<open>The prompt and the request\<close>

text \<open>
  The template literal, in its three parts: the instructions up to the opening
  delimiter, \<open>text.slice(0, 180000)\<close>, and the closing delimiter.
\<close>

definition prompt_head :: "target_value \<Rightarrow> jsstring" where
  "prompt_head target =
     [newline] @ js ''You are a document summariser. Respond ONLY as strict JSON:'' @ [newline]
     @ js ''{\"summary\":\"...\", \"key_points\":[\"...\",\"...\",\"...\"]}'' @ [newline, newline]
     @ js ''Rules:'' @ [newline]
     @ js ''- length: '' @ render_target target @ [newline]
     @ js ''- concise & neutral'' @ [newline]
     @ js ''- keep names, numbers, definitions'' @ [newline]
     @ js ''- if input empty/garbled: {\"summary\":\"No readable content.\", \"key_points\":[]}''
     @ [newline, newline]
     @ js ''TEXT:'' @ [newline]
     @ js ''\"\"\"''"

definition prompt_tail :: jsstring where
  "prompt_tail = js ''\"\"\"'' @ [newline]"

definition build_prompt :: "target_value \<Rightarrow> jsstring \<Rightarrow> jsstring" where
  "build_prompt target text' = prompt_head target @ take 180000 text' @ prompt_tail"

definition build_request :: "jsstring option \<Rightarrow> jsstring \<Rightarrow> request" where
  "build_request KEY prompt =
     \<lparr>req_url = BASE @ js ''/models/'' @ MODEL @ js '':generateContent?key=''
        @ (case KEY of None \<Rightarrow> js ''undefined'' | Some k \<Rightarrow> k),
      req_prompt = prompt\<rparr>"

subsection \<open>Decoding the reply\<close>

text \<open>
  \<open>raw.match(/\{[\s\S]*\}/)\<close>. \<open>greedy_to_close\<close> is \<open>[\s\S]*\}\<close> at the start of its
  argument: the star takes as much as it can and gives back until a closing brace
  follows. \<open>regex_match\<close> tries each start position from the left.
\<close>

fun greedy_to_close :: "jsstring \<Rightarrow> jsstring option" where
  "greedy_to_close [] = None"
| "greedy_to_close (c # cs) =
     (case greedy_to_close cs of
        Some m \<Rightarrow> Some (c # m)
      | None \<Rightarrow> if c = 0x7D then Some [c] else None)"

fun regex_match :: "jsstring \<Rightarrow> jsstring option" where
  "regex_match [] = None"
| "regex_match (c # cs) =
     (case (if c = 0x7B then greedy_to_close cs else None) of
        Some m \<Rightarrow> Some (c # m)
      | None \<Rightarrow> regex_match cs)"

definition fallback :: "jsstring \<Rightarrow> json" where
  "fallback raw = JObj [(js ''summary'', JStr raw), (js ''key_points'', JArr [])]"

text \<open>The \<open>try { ... } catch { ... }\<close> around \<open>JSON.parse\<close>.\<close>

definition decode_reply :: "jsstring \<Rightarrow> error + json" where
  "decode_reply raw =
     (case (case regex_match raw of
              Some m \<Rightarrow> JSON_parse m
            | None \<Rightarrow> Inr (fallback raw)) of
        Inr v \<Rightarrow> Inr v
      | Inl e \<Rightarrow> Inr (fallback raw))"

text \<open>
  Optional chaining on a parsed JSON value: \<open>x?.k\<close> and \<open>x?.[0]\<close>, with \<open>None\<close> for
  undefined. The four names read here are own properties of an object or nothing: no
  prototype has them. A string has its first code unit at index 0.
\<close>

fun member :: "json option \<Rightarrow> jsstring \<Rightarrow> json option" where
  "member (Some (JObj ms)) k = map_of ms k"
| "member _ k = None"

fun index0 :: "json option \<Rightarrow> json option" where
  "index0 (Some (JArr xs)) = (case xs of [] \<Rightarrow> None | x # _ \<Rightarrow> Some x)"
| "index0 (Some (JStr s)) = (case s of [] \<Rightarrow> None | c # _ \<Rightarrow> Some (JStr [c]))"
| "index0 (Some (JObj ms)) = map_of ms (js ''0'')"
| "index0 _ = None"

definition envelope_text :: "json \<Rightarrow> json option" where
  "envelope_text json =
     member (index0 (member (member (index0 (member (Some json) (js ''candidates'')))
       (js ''content'')) (js ''parts''))) (js ''text'')"

text \<open>
  \<open>... ?? "{}"\<close> replaces undefined and null. \<open>raw.match\<close> exists on a string only:
  on any other value the call throws a TypeError, outside the \<open>try\<close>.
\<close>

definition decode_envelope :: "json \<Rightarrow> error + json" where
  "decode_envelope json =
     (let raw = (case envelope_text json of
                   None \<Rightarrow> JStr (js ''{}'')
                 | Some JNull \<Rightarrow> JStr (js ''{}'')
                 | Some v \<Rightarrow> v)
      in case raw of
           JStr s \<Rightarrow> decode_reply s
         | _ \<Rightarrow> Inl (TypeError (js ''raw.match is not a function'')))"

definition summariseWithGemini ::
  "jsstring option \<Rightarrow> 'b collaborators \<Rightarrow> jsstring \<Rightarrow> jsstring option
     \<Rightarrow> (error + json) \<times> call list" where
  "summariseWithGemini KEY eng text' length' =
     (case mustKey KEY of
        Inl e \<Rightarrow> (Inl e, [])
      | Inr _ \<Rightarrow>
          (let target = select_target length';
               prompt = build_prompt target text';
               req = build_request KEY prompt
           in case fetch eng req of
                Inl e \<Rightarrow> (Inl e, [CallFetch req])
              | Inr res \<Rightarrow>
                  if \<not> ok res then
                    (Inl (Error (js ''Gemini error '' @ show_nat (status res))), [CallFetch req])
                  else
                    (case JSON_parse (body res) of
                       Inl e \<Rightarrow> (Inl e, [CallFetch req])
                     | Inr json \<Rightarrow> (decode_envelope json, [CallFetch req]))))"

section \<open>The pipeline (handleSummarise)\<close>

record 'b app_state =
  file' :: "'b submitted_file option"
  length' :: jsstring
  loading :: bool
  error :: jsstring
  result :: "json option"
  rawText :: jsstring

definition no_text_message :: jsstring where
  "no_text_message =
     js ''Could not extract any text from the document. It might be empty or unreadable.''"

text \<open>The \<open>catch (e)\<close> block, then \<open>finally\<close>.\<close>

definition on_error :: "error \<Rightarrow> 'b app_state \<Rightarrow> 'b app_state" where
  "on_error e st =
     st\<lparr>error := (if message e = [] then js ''Something went wrong.'' else message e),
        loading := False\<rparr>"

definition handleSummarise ::
  "jsstring option \<Rightarrow> 'b collaborators \<Rightarrow> 'b app_state \<Rightarrow> 'b app_state \<times> call list" where
  "handleSummarise KEY eng st =
     (case file' st of
        None \<Rightarrow> (st, [])
      | Some f \<Rightarrow>
          (let st1 = st\<lparr>loading := True, error := [], result := None\<rparr>
           in case extractTextFromFile eng f of
                (Inl e, c1) \<Rightarrow> (on_error e st1, c1)
              | (Inr text', c1) \<Rightarrow>
                  (let st2 = st1\<lparr>rawText := text'\<rparr>
                   in if trim text' = [] then
                        (st2\<lparr>error := no_text_message, loading := False\<rparr>, c1)
                      else
                        (case summariseWithGemini KEY eng text' (Some (length' st2)) of
                           (Inl e, c2) \<Rightarrow> (on_error e st2, c1 @ c2)
                         | (Inr out, c2) \<Rightarrow>
                             (st2\<lparr>result := Some out, loading := False\<rparr>, c1 @ c2)))))"

section \<open>Reference definitions and sample inputs\<close>

text \<open>
  The text fragments of page \<open>p\<close>, when the page and its content can be read.
\<close>

definition page_fragments :: "pdf_document \<Rightarrow> nat \<Rightarrow> jsstring list option" where
  "page_fragments pdf p =
     (case getPage pdf p of
        Inl e \<Rightarrow> None
      | Inr page \<Rightarrow>
          (case getTextContent page of
             Inl e \<Rightarrow> None
           | Inr content \<Rightarrow> Some (map str (items content))))"

text \<open>
  The reference extraction, in the words of the specification: for each page index from
  1 to \<open>N\<close> in ascending order the page's fragments joined with a single space, and the
  page strings joined with a blank line.
\<close>

definition extraction_reference :: "(nat \<Rightarrow> jsstring list) \<Rightarrow> nat \<Rightarrow> jsstring" where
  "extraction_reference frags N =
     join [newline, newline] (map (\<lambda>p. join (js '' '') (frags p)) [1..<Suc N])"

text \<open>
  A SummaryResult in its documented shape: an object whose \<open>summary\<close> is a string and
  whose \<open>key_points\<close> is an array of strings.
\<close>

fun is_string :: "json \<Rightarrow> bool" where
  "is_string (JStr s) = True"
| "is_string _ = False"

definition well_formed_result :: "json \<Rightarrow> bool" where
  "well_formed_result v =
     (case v of
        JObj ms \<Rightarrow>
          (case (map_of ms (js ''summary''), map_of ms (js ''key_points'')) of
             (Some (JStr s), Some (JArr ks)) \<Rightarrow> list_all is_string ks
           | _ \<Rightarrow> False)
      | _ \<Rightarrow> False)"

text \<open>
  The automaton's invariant while it reads a text that starts with an opening brace: the
  bottom frame is an object frame, and a finished value is an object.
\<close>

definition bottom_obj :: "frame list \<Rightarrow> bool" where
  "bottom_obj st = (st \<noteq> [] \<and> (case last st of FObj ms k \<Rightarrow> True | FArr es \<Rightarrow> False))"

fun is_object :: "json \<Rightarrow> bool" where
  "is_object (JObj ms) = True"
| "is_object _ = False"

fun obj_inv :: "expect \<times> frame list \<Rightarrow> bool" where
  "obj_inv (EDone v, st) = is_object v"
| "obj_inv (e, st) = bottom_obj st"

text \<open>Sample inputs: a two-page document, an empty document, and collaborators.\<close>

definition sample_page :: "jsstring list \<Rightarrow> error + pdf_page" where
  "sample_page frags = Inr \<lparr>getTextContent = Inr \<lparr>items = map (\<lambda>s. \<lparr>str = s\<rparr>) frags\<rparr>\<rparr>"

definition sample_frags :: "nat \<Rightarrow> jsstring list" where
  "sample_frags p = (if p = 1 then [js ''Hello'', js ''world''] else [js ''Bye''])"

definition sample_pdf :: pdf_document where
  "sample_pdf =
     \<lparr>numPages = 2,
      getPage = (\<lambda>p. if p = 1 \<or> p = 2 then sample_page (sample_frags p)
                      else Inl (Error (js ''Invalid page request'')))\<rparr>"

definition empty_pdf :: pdf_document where
  "empty_pdf = \<lparr>numPages = 0, getPage = (\<lambda>p. Inl (Error (js ''Invalid page request'')))\<rparr>"

text \<open>
  Sample collaborators over files whose contents are their text: the PDF parser yields
  the given document, OCR and \<open>file.text()\<close> yield the contents, and the endpoint
  answers every request with the given body.
\<close>

definition sample_eng :: "pdf_document \<Rightarrow> jsstring \<Rightarrow> jsstring collaborators" where
  "sample_eng pdf reply =
     \<lparr>getDocument = (\<lambda>d. Inr pdf),
      recognize = (\<lambda>d. Inr \<lparr>ocr_text = Some d\<rparr>),
      file_text = (\<lambda>d. Inr d),
      fetch = (\<lambda>r. Inr \<lparr>ok = True, status = 200, body = reply\<rparr>)\<rparr>"

definition sample_file :: "jsstring option \<Rightarrow> jsstring \<Rightarrow> jsstring submitted_file" where
  "sample_file t d = \<lparr>ftype = t, fname = js ''sample'', fdata = d\<rparr>"

definition sample_state :: "jsstring submitted_file \<Rightarrow> jsstring app_state" where
  "sample_state f =
     \<lparr>file' = Some f, length' = js ''medium'', loading = False, error = [], result = None,
      rawText = []\<rparr>"

section \<open>Properties of the dispatcher\<close>

lemma extractPdfText_calls: "snd (extractPdfText eng f) = [CallGetDocument]"
  by (simp add: extractPdfText_def split: sum.splits)

lemma ocrImage_calls: "snd (ocrImage eng f) = [CallRecognize]"
  by (simp add: ocrImage_def split: sum.splits)

lemma image_type_iff:
  "(case ftype f of None \<Rightarrow> False | Some t \<Rightarrow> startsWith t (js ''image/''))
     = (\<exists>t. ftype f = Some t \<and> startsWith t (js ''image/''))"
  by (cases "ftype f") simp_all

lemma extractTextFromFile_no_fetch: "CallFetch r \<notin> set (snd (extractTextFromFile eng f))"
  by (simp add: extractTextFromFile_def extractPdfText_calls ocrImage_calls)

text \<open>
  C1. For every submitted file the dispatcher calls exactly one collaborator, chosen in
  this order: the PDF parser when the declared media type equals
  \<open>application/pdf\<close>; else OCR when the type begins with \<open>image/\<close>; else the
  file's text decoder. Its result is that strategy's result. The choice is total: an
  absent type and the empty type select the text decoder.
\<close>

theorem extractTextFromFile_dispatch:
  "snd (extractTextFromFile eng f) =
     [if ftype f = Some (js ''application/pdf'') then CallGetDocument
      else if (\<exists>t. ftype f = Some t \<and> startsWith t (js ''image/'')) then CallRecognize
      else CallFileText]
   \<and> fst (extractTextFromFile eng f) =
     (if ftype f = Some (js ''application/pdf'') then fst (extractPdfText eng f)
      else if (\<exists>t. ftype f = Some t \<and> startsWith t (js ''image/'')) then fst (ocrImage eng f)
      else file_text eng (fdata f))
   \<and> snd (extractTextFromFile eng (f\<lparr>ftype := None\<rparr>)) = [CallFileText]
   \<and> snd (extractTextFromFile eng (f\<lparr>ftype := Some []\<rparr>)) = [CallFileText]"
proof -
  have e: "\<not> startsWith [] (js ''image/'')" "[] \<noteq> js ''application/pdf''"
    by (simp_all add: startsWith_def js_def)
  have 1: "snd (extractTextFromFile eng f) =
     [if ftype f = Some (js ''application/pdf'') then CallGetDocument
      else if (\<exists>t. ftype f = Some t \<and> startsWith t (js ''image/'')) then CallRecognize
      else CallFileText]"
    unfolding extractTextFromFile_def image_type_iff
    by (auto simp: extractPdfText_calls ocrImage_calls)
  have 2: "fst (extractTextFromFile eng f) =
     (if ftype f = Some (js ''application/pdf'') then fst (extractPdfText eng f)
      else if (\<exists>t. ftype f = Some t \<and> startsWith t (js ''image/'')) then fst (ocrImage eng f)
      else file_text eng (fdata f))"
    unfolding extractTextFromFile_def image_type_iff by auto
  have 3: "snd (extractTextFromFile eng (f\<lparr>ftype := None\<rparr>)) = [CallFileText]"
    unfolding extractTextFromFile_def by simp
  have 4: "snd (extractTextFromFile eng (f\<lparr>ftype := Some []\<rparr>)) = [CallFileText]"
    unfolding extractTextFromFile_def using e by simp
  show ?thesis
    using 1 2 3 4 by blast
qed

section \<open>Properties of the structured-document extraction\<close>

text \<open>
  The loop invariant: started at page \<open>p\<close> with \<open>chunks\<close> collected, the loop returns
  \<open>chunks\<close> followed by the strings of the pages \<open>p, ..., numPages\<close>, in this order.
\<close>

lemma extract_pages_loop:
  "p \<le> Suc (numPages pdf) \<Longrightarrow>
   (\<And>q. p \<le> q \<Longrightarrow> q \<le> numPages pdf \<Longrightarrow> page_fragments pdf q = Some (frags q)) \<Longrightarrow>
   extract_pages pdf p chunks =
     Inr (chunks @ map (\<lambda>q. join (js '' '') (frags q)) [p..<Suc (numPages pdf)])"
proof (induction pdf p chunks rule: extract_pages.induct)
  case (1 pdf p chunks)
  show ?case
  proof (cases "p \<le> numPages pdf")
    case False
    with "1.prems"(1) have "p = Suc (numPages pdf)" by simp
    then show ?thesis by (subst extract_pages.simps) simp
  next
    case True
    from "1.prems"(2) [OF order_refl True]
    obtain page content where pg: "getPage pdf p = Inr page"
      and ct: "getTextContent page = Inr content"
      and fr: "map str (items content) = frags p"
      by (auto simp: page_fragments_def split: sum.splits)
    have ih: "extract_pages pdf (p + 1) (chunks @ [join (js '' '') (map str (items content))]) =
        Inr ((chunks @ [join (js '' '') (map str (items content))]) @
          map (\<lambda>q. join (js '' '') (frags q)) [p + 1..<Suc (numPages pdf)])"
      using True "1.prems"(2) by (intro "1.IH" [OF True pg ct]) auto
    have up: "[p..<Suc (numPages pdf)] = p # [p + 1..<Suc (numPages pdf)]"
      using True by (simp add: upt_conv_Cons)
    have "extract_pages pdf p chunks =
        extract_pages pdf (p + 1) (chunks @ [join (js '' '') (map str (items content))])"
      by (subst extract_pages.simps) (simp add: True pg ct)
    also note ih
    finally show ?thesis
      by (simp only: up fr list.map append_assoc append_Cons append_Nil)
  qed
qed

text \<open>
  C9. For a document with \<open>N\<close> pages whose pages can all be read, the extraction
  returns the reference text: the fragments of each page joined with a single space,
  the pages in ascending order from 1 to \<open>N\<close> joined with a blank line. The text
  depends on the parsed document only: every extraction that parses to the same
  document returns the same text.
\<close>

theorem extractPdfText_reference:
  assumes "getDocument (eng :: 'b collaborators) (fdata f) = Inr pdf"
    and "\<forall>p. 1 \<le> p \<and> p \<le> numPages pdf \<longrightarrow> page_fragments pdf p = Some (frags p)"
  shows "fst (extractPdfText eng f) = Inr (extraction_reference frags (numPages pdf))
    \<and> (\<forall>(eng' :: 'b collaborators) f'. getDocument eng' (fdata f') = Inr pdf \<longrightarrow>
          fst (extractPdfText eng' f') = fst (extractPdfText eng f))"
proof -
  have "extract_pages pdf 1 [] =
      Inr ([] @ map (\<lambda>q. join (js '' '') (frags q)) [1..<Suc (numPages pdf)])"
    using assms(2) by (intro extract_pages_loop) auto
  then have "fst (extractPdfText e g) = Inr (extraction_reference frags (numPages pdf))"
    if "getDocument e (fdata g) = Inr pdf" for e :: "'b collaborators" and g
    using that by (simp add: extractPdfText_def extraction_reference_def)
  with assms(1) show ?thesis
    by simp
qed

theorem extractPdfText_reference_witness:
  "fst (extractPdfText (sample_eng sample_pdf []) (sample_file (Some (js ''application/pdf'')) []))
     = Inr (js ''Hello world'' @ [newline, newline] @ js ''Bye'')"
proof -
  have d: "getDocument (sample_eng sample_pdf [])
      (fdata (sample_file (Some (js ''application/pdf'')) [])) = Inr sample_pdf"
    by (simp add: sample_eng_def)
  have "page_fragments sample_pdf p = Some (sample_frags p)" if "p = 1 \<or> p = 2" for p
    using that by (auto simp: page_fragments_def sample_pdf_def sample_page_def o_def)
  moreover have "numPages sample_pdf = 2"
    by (simp add: sample_pdf_def)
  moreover have "p = 1 \<or> p = 2" if "1 \<le> p \<and> p \<le> 2" for p :: nat
    using that by arith
  ultimately have p: "\<forall>p. 1 \<le> p \<and> p \<le> numPages sample_pdf \<longrightarrow>
      page_fragments sample_pdf p = Some (sample_frags p)"
    by metis
  have r: "extraction_reference sample_frags (numPages sample_pdf)
      = js ''Hello world'' @ [newline, newline] @ js ''Bye''"
    by (simp add: extraction_reference_def sample_pdf_def sample_frags_def upt_rec js_def)
  show ?thesis
    using extractPdfText_reference [OF d p] r by simp
qed

section \<open>Properties of the pipeline\<close>

lemma dropWhile_all: "(\<forall>x \<in> set (dropWhile P xs). P x) \<longleftrightarrow> (\<forall>x \<in> set xs. P x)"
proof
  assume a: "\<forall>x \<in> set (dropWhile P xs). P x"
  have "dropWhile P xs = []"
  proof (cases "dropWhile P xs")
    case (Cons y ys)
    then have "\<not> P y" using hd_dropWhile [of P xs] by simp
    then show ?thesis using a Cons by simp
  qed simp
  then show "\<forall>x \<in> set xs. P x" by (simp add: dropWhile_eq_Nil_conv)
next
  assume "\<forall>x \<in> set xs. P x"
  then show "\<forall>x \<in> set (dropWhile P xs). P x" by (auto dest: set_dropWhileD)
qed

lemma trim_empty_iff: "trim s = [] \<longleftrightarrow> (\<forall>c \<in> set s. is_js_space c)"
  by (simp add: trim_def dropWhile_eq_Nil_conv dropWhile_all)

lemma summariseWithGemini_calls:
  "mustKey KEY = Inr () \<Longrightarrow>
   snd (summariseWithGemini KEY eng t l) =
     [CallFetch (build_request KEY (build_prompt (select_target l) t))]"
  by (simp add: summariseWithGemini_def Let_def split: sum.splits)

lemma handleSummarise_blank:
  assumes "file' st = Some f" and "extractTextFromFile eng f = (Inr t, cs)" and "trim t = []"
  shows "handleSummarise KEY eng st =
    (st\<lparr>loading := False, error := no_text_message, result := None, rawText := t\<rparr>, cs)"
  using assms by (simp add: handleSummarise_def)

lemma handleSummarise_forward:
  assumes "file' st = Some f" and "extractTextFromFile eng f = (Inr t, cs)" and "trim t \<noteq> []"
  shows "snd (handleSummarise KEY eng st) =
    cs @ snd (summariseWithGemini KEY eng t (Some (length' st)))"
  using assms by (simp add: handleSummarise_def Let_def split: prod.splits sum.splits)

text \<open>
  C2. When the extracted text is empty or has only white space (its trim is empty), the
  pipeline ends with the "could not extract any text" message, no result, and no call to
  the remote endpoint. Otherwise the text handed to the summarization client is the
  extracted text itself, untrimmed: with a key configured, the one request made embeds
  it (up to the length bound) in its prompt.
\<close>

theorem handleSummarise_empty_text:
  assumes "file' st = Some f" and "extractTextFromFile eng f = (Inr t, cs)"
  shows "(trim t = [] \<longleftrightarrow> (\<forall>c \<in> set t. is_js_space c))
    \<and> (trim t = [] \<longrightarrow>
         handleSummarise KEY eng st =
           (st\<lparr>loading := False, error := no_text_message, result := None, rawText := t\<rparr>, cs)
         \<and> (\<forall>r. CallFetch r \<notin> set (snd (handleSummarise KEY eng st))))
    \<and> (trim t \<noteq> [] \<longrightarrow>
         snd (handleSummarise KEY eng st) =
           cs @ snd (summariseWithGemini KEY eng t (Some (length' st)))
         \<and> (mustKey KEY = Inr () \<longrightarrow>
              snd (handleSummarise KEY eng st) =
                cs @ [CallFetch (build_request KEY
                  (build_prompt (select_target (Some (length' st))) t))]))"
proof -
  have cs: "CallFetch r \<notin> set cs" for r
    using extractTextFromFile_no_fetch [of r eng f] assms(2) by simp
  show ?thesis
    using handleSummarise_blank [OF assms] handleSummarise_forward [OF assms] cs
    by (simp add: trim_empty_iff summariseWithGemini_calls)
qed

theorem handleSummarise_empty_text_witness:
  "handleSummarise (Some (js ''k'')) (sample_eng empty_pdf (js ''{}''))
       (sample_state (sample_file (Some (js ''text/plain'')) [0x20, 0x0A, 0x09]))
     = ((sample_state (sample_file (Some (js ''text/plain'')) [0x20, 0x0A, 0x09]))
          \<lparr>loading := False, error := no_text_message, result := None,
           rawText := [0x20, 0x0A, 0x09]\<rparr>, [CallFileText])
   \<and> snd (handleSummarise (Some (js ''k'')) (sample_eng empty_pdf (js ''{}''))
       (sample_state (sample_file None (js '' hi ''))))
     = [CallFileText, CallFetch (build_request (Some (js ''k''))
          (build_prompt (select_target (Some (js ''medium''))) (js '' hi '')))]"
proof -
  let ?eng = "sample_eng empty_pdf (js ''{}'')"
  let ?f1 = "sample_file (Some (js ''text/plain'')) [0x20, 0x0A, 0x09]"
  let ?f2 = "sample_file None (js '' hi '')"
  have k: "mustKey (Some (js ''k'')) = Inr ()"
    by (simp add: mustKey_def js_def)
  have e1: "extractTextFromFile ?eng ?f1 = (Inr [0x20, 0x0A, 0x09], [CallFileText])"
    by (simp add: extractTextFromFile_def sample_eng_def sample_file_def startsWith_def js_def)
  have e2: "extractTextFromFile ?eng ?f2 = (Inr (js '' hi ''), [CallFileText])"
    by (simp add: extractTextFromFile_def sample_eng_def sample_file_def)
  have t1: "trim [0x20, 0x0A, 0x09] = []"
    by (simp add: trim_def is_js_space_def)
  have t2: "trim (js '' hi '') \<noteq> []"
    by (simp add: trim_def is_js_space_def js_def)
  have s1: "file' (sample_state ?f1) = Some ?f1" and s2: "file' (sample_state ?f2) = Some ?f2"
    by (simp_all add: sample_state_def)
  have l: "length' (sample_state ?f2) = js ''medium''"
    by (simp add: sample_state_def)
  from handleSummarise_empty_text [OF s1 e1, of "Some (js ''k'')"] t1
  have 1: "handleSummarise (Some (js ''k'')) ?eng (sample_state ?f1)
     = ((sample_state ?f1)\<lparr>loading := False, error := no_text_message, result := None,
           rawText := [0x20, 0x0A, 0x09]\<rparr>, [CallFileText])"
    by blast
  from handleSummarise_empty_text [OF s2 e2, of "Some (js ''k'')"] t2 k
  have 2: "snd (handleSummarise (Some (js ''k'')) ?eng (sample_state ?f2))
     = [CallFileText] @ [CallFetch (build_request (Some (js ''k''))
          (build_prompt (select_target (Some (length' (sample_state ?f2)))) (js '' hi '')))]"
    by blast
  show ?thesis using 1 2 by (simp add: l)
qed

lemma extract_pages_past_end: "numPages pdf < p \<Longrightarrow> extract_pages pdf p chunks = Inr chunks"
  by (subst extract_pages.simps) simp

text \<open>
  C10. For a PDF whose page count is zero the extraction succeeds with the empty
  string, the join of no page strings; the pipeline then reports the "could not extract
  any text" condition, with no call to the remote endpoint.
\<close>

theorem extractPdfText_no_pages:
  assumes "file' st = Some f" and "ftype f = Some (js ''application/pdf'')"
    and "getDocument eng (fdata f) = Inr pdf" and "numPages pdf = 0"
  shows "extractPdfText eng f = (Inr [], [CallGetDocument])
    \<and> handleSummarise KEY eng st =
        (st\<lparr>loading := False, error := no_text_message, result := None, rawText := []\<rparr>,
         [CallGetDocument])"
proof -
  have x: "extractPdfText eng f = (Inr [], [CallGetDocument])"
    using assms(3,4) by (simp add: extractPdfText_def extract_pages_past_end)
  then have "extractTextFromFile eng f = (Inr [], [CallGetDocument])"
    using assms(2) by (simp add: extractTextFromFile_def)
  then have "handleSummarise KEY eng st =
        (st\<lparr>loading := False, error := no_text_message, result := None, rawText := []\<rparr>,
         [CallGetDocument])"
    using assms(1) by (simp add: handleSummarise_def trim_def)
  with x show ?thesis by simp
qed

theorem extractPdfText_no_pages_witness:
  "extractPdfText (sample_eng empty_pdf []) (sample_file (Some (js ''application/pdf'')) [])
     = (Inr [], [CallGetDocument])
   \<and> handleSummarise None (sample_eng empty_pdf [])
        (sample_state (sample_file (Some (js ''application/pdf'')) []))
     = ((sample_state (sample_file (Some (js ''application/pdf'')) []))
          \<lparr>loading := False, error := no_text_message, result := None, rawText := []\<rparr>,
        [CallGetDocument])"
  using extractPdfText_no_pages [of "sample_state (sample_file (Some (js ''application/pdf'')) [])"
      "sample_file (Some (js ''application/pdf'')) []" "sample_eng empty_pdf []" empty_pdf None]
  by (simp add: sample_state_def sample_file_def sample_eng_def empty_pdf_def)

section \<open>Properties of the summarization client\<close>

text \<open>
  C7. With the credential absent (or empty) the client fails at once with the
  configuration error, and its call log is empty: no request is made.
\<close>

theorem summariseWithGemini_missing_key:
  assumes "KEY = None \<or> KEY = Some []"
  shows "summariseWithGemini KEY eng t l =
    (Inl (Error (js ''Missing VITE_GEMINI_API_KEY in .env.local'')), [])"
  using assms by (auto simp: summariseWithGemini_def mustKey_def)

theorem summariseWithGemini_missing_key_witness:
  "summariseWithGemini None (sample_eng empty_pdf (js ''{}'')) (js ''some text'') (Some (js ''short''))
     = (Inl (Error (js ''Missing VITE_GEMINI_API_KEY in .env.local'')), [])
   \<and> summariseWithGemini (Some []) (sample_eng empty_pdf (js ''{}'')) (js ''some text'') None
     = (Inl (Error (js ''Missing VITE_GEMINI_API_KEY in .env.local'')), [])"
  by (simp add: summariseWithGemini_missing_key [of None]
      summariseWithGemini_missing_key [of "Some []"])

text \<open>
  C6. The prompt of the outbound request embeds, between its delimiters, exactly the
  first 180000 code units of a text longer than that, and the whole text otherwise;
  nothing fails when the excess is dropped.
\<close>

theorem prompt_truncation:
  assumes "mustKey KEY = Inr ()"
  shows "snd (summariseWithGemini KEY eng t l) =
      [CallFetch (build_request KEY
         (prompt_head (select_target l)
            @ (if 180000 < length t then take 180000 t else t) @ prompt_tail))]
    \<and> (180000 < length t \<longrightarrow>
          length (take 180000 t) = 180000 \<and> take 180000 t @ drop 180000 t = t)"
proof -
  have "take 180000 t = (if 180000 < length t then take 180000 t else t)"
    by simp
  then have "build_prompt (select_target l) t =
      prompt_head (select_target l)
        @ (if 180000 < length t then take 180000 t else t) @ prompt_tail"
    unfolding build_prompt_def by (rule arg_cong)
  then show ?thesis
    using summariseWithGemini_calls [OF assms, of eng t l] by simp
qed

theorem prompt_truncation_witness:
  "snd (summariseWithGemini (Some (js ''k'')) (sample_eng empty_pdf (js ''{}''))
        (replicate 180000 0x61 @ [0x62, 0x63]) None) =
      [CallFetch (build_request (Some (js ''k''))
         (prompt_head (select_target None) @ replicate 180000 0x61 @ prompt_tail))]
   \<and> snd (summariseWithGemini (Some (js ''k'')) (sample_eng empty_pdf (js ''{}''))
        (js ''short text'') None) =
      [CallFetch (build_request (Some (js ''k''))
         (prompt_head (select_target None) @ js ''short text'' @ prompt_tail))]"
proof -
  have k: "mustKey (Some (js ''k'')) = Inr ()"
    by (simp add: mustKey_def js_def)
  have s: "\<not> 180000 < length (js ''short text'')"
    by (simp add: js_def)
  show ?thesis
    using prompt_truncation [OF k, of "sample_eng empty_pdf (js ''{}'')"
        "replicate 180000 0x61 @ [0x62, 0x63]" None]
      prompt_truncation [OF k, of "sample_eng empty_pdf (js ''{}'')" "js ''short text''" None] s
    by simp
qed

section \<open>Properties of the reply decoder\<close>

lemma greedy_to_close_None: "greedy_to_close cs = None \<longleftrightarrow> 0x7D \<notin> set cs"
  by (induction cs) (auto split: option.splits)

lemma greedy_to_close_last:
  "0x7D \<notin> set post \<Longrightarrow> greedy_to_close (xs @ 0x7D # post) = Some (xs @ [0x7D])"
proof (induction xs)
  case Nil
  then show ?case by (simp add: greedy_to_close_None [THEN iffD2])
next
  case (Cons x xs)
  then show ?case by simp
qed

lemma regex_match_skip:
  "0x7B \<notin> set pre \<Longrightarrow> regex_match (pre @ cs) = regex_match cs"
  by (induction pre) auto

lemma regex_match_first_last:
  assumes "0x7B \<notin> set pre" and "0x7D \<notin> set post"
  shows "regex_match (pre @ 0x7B # mid @ 0x7D # post) = Some (0x7B # mid @ [0x7D])"
  using assms by (simp add: regex_match_skip greedy_to_close_last)

lemma regex_match_None_iff:
  "regex_match raw = None \<longleftrightarrow> 0x7D \<notin> set (dropWhile (\<lambda>c. c \<noteq> 0x7B) raw)"
proof (induction raw)
  case Nil
  then show ?case by simp
next
  case (Cons c cs)
  show ?case
  proof (cases "c = 0x7B")
    case True
    have "regex_match cs = None" if "0x7D \<notin> set cs"
      using that Cons.IH set_dropWhileD [of _ "\<lambda>c. c \<noteq> 0x7B" cs] by blast
    then show ?thesis
      using True greedy_to_close_None [of cs] by (auto split: option.splits)
  next
    case False
    then show ?thesis using Cons.IH by simp
  qed
qed

lemma decode_reply_no_match: "regex_match raw = None \<Longrightarrow> decode_reply raw = Inr (fallback raw)"
  by (simp add: decode_reply_def)

lemma decode_reply_parse_error:
  "regex_match raw = Some m \<Longrightarrow> JSON_parse m = Inl e \<Longrightarrow> decode_reply raw = Inr (fallback raw)"
  by (simp add: decode_reply_def)

lemma decode_reply_parsed:
  "regex_match raw = Some m \<Longrightarrow> JSON_parse m = Inr v \<Longrightarrow> decode_reply raw = Inr v"
  by (simp add: decode_reply_def)

lemma decode_reply_returns: "\<exists>v. decode_reply raw = Inr v"
  by (simp add: decode_reply_def split: option.splits sum.splits)

text \<open>
  C3 (amended). Decoding a reply always returns a value. The reply
  \<open>{"summary":"A","key_points":["x","y"]}\<close> decodes to that object. A reply with a JSON
  object embedded in prose that has no opening brace before it and no closing brace after
  it decodes to the parsed object. A reply with no closing brace after its first opening
  brace, and a reply whose matched substring does not parse, decode to the fallback
  \<open>{summary: raw, key_points: []}\<close>.
\<close>

theorem decode_reply_cases:
  "(\<exists>v. decode_reply raw = Inr v)
   \<and> decode_reply (js ''{\"summary\":\"A\",\"key_points\":[\"x\",\"y\"]}'') =
       Inr (JObj [(js ''summary'', JStr (js ''A'')),
         (js ''key_points'', JArr [JStr (js ''x''), JStr (js ''y'')])])
   \<and> (0x7B \<notin> set pre \<and> 0x7D \<notin> set post \<and> JSON_parse (0x7B # mid @ [0x7D]) = Inr v \<longrightarrow>
        decode_reply (pre @ 0x7B # mid @ 0x7D # post) = Inr v)
   \<and> (0x7D \<notin> set (dropWhile (\<lambda>c. c \<noteq> 0x7B) raw) \<longrightarrow> decode_reply raw = Inr (fallback raw))
   \<and> (\<forall>m e. regex_match raw = Some m \<and> JSON_parse m = Inl e \<longrightarrow>
        decode_reply raw = Inr (fallback raw))"
proof -
  have 1: "decode_reply (js ''{\"summary\":\"A\",\"key_points\":[\"x\",\"y\"]}'') =
       Inr (JObj [(js ''summary'', JStr (js ''A'')),
         (js ''key_points'', JArr [JStr (js ''x''), JStr (js ''y'')])])"
    by code_simp
  have 2: "decode_reply (pre @ 0x7B # mid @ 0x7D # post) = Inr v"
    if "0x7B \<notin> set pre" "0x7D \<notin> set post" "JSON_parse (0x7B # mid @ [0x7D]) = Inr v"
    using that by (simp add: decode_reply_parsed [OF regex_match_first_last])
  have 3: "decode_reply raw = Inr (fallback raw)"
    if "0x7D \<notin> set (dropWhile (\<lambda>c. c \<noteq> 0x7B) raw)"
    using that by (simp add: decode_reply_no_match regex_match_None_iff)
  show ?thesis
    using decode_reply_returns [of raw] 1 2 3 decode_reply_parse_error [of raw] by blast
qed

theorem decode_reply_cases_witness:
  "decode_reply (js ''Sure! Here is the JSON: {\"summary\":\"B\",\"key_points\":[]}'') =
       Inr (JObj [(js ''summary'', JStr (js ''B'')), (js ''key_points'', JArr [])])
   \<and> decode_reply (js ''not json at all'') = Inr (fallback (js ''not json at all''))
   \<and> decode_reply (js ''{\"summary\": invalid}'') = Inr (fallback (js ''{\"summary\": invalid}''))"
proof -
  let ?B = "JObj [(js ''summary'', JStr (js ''B'')), (js ''key_points'', JArr [])]"
  let ?pre = "js ''Sure! Here is the JSON: ''"
  let ?mid = "js ''\"summary\":\"B\",\"key_points\":[]''"
  have s: "js ''Sure! Here is the JSON: {\"summary\":\"B\",\"key_points\":[]}''
      = ?pre @ 0x7B # ?mid @ 0x7D # []"
    by (simp add: js_def)
  have p: "0x7B \<notin> set ?pre" "0x7D \<notin> set []"
    by (simp_all add: js_def)
  have j: "JSON_parse (0x7B # ?mid @ [0x7D]) = Inr ?B"
    by code_simp
  have n: "0x7D \<notin> set (dropWhile (\<lambda>c. c \<noteq> 0x7B) (js ''not json at all''))"
    by (simp add: js_def)
  have m: "regex_match (js ''{\"summary\": invalid}'') = Some (js ''{\"summary\": invalid}'')"
    by code_simp
  have e: "JSON_parse (js ''{\"summary\": invalid}'') = Inl (SyntaxError (js ''Unexpected token in JSON''))"
    by code_simp
  have 1: "decode_reply (?pre @ 0x7B # ?mid @ 0x7D # []) = Inr ?B"
    using decode_reply_cases [of _ ?pre "[]" ?mid ?B] p j by blast
  have 2: "decode_reply (js ''not json at all'') = Inr (fallback (js ''not json at all''))"
    using decode_reply_cases [of "js ''not json at all''"] n by blast
  have 3: "decode_reply (js ''{\"summary\": invalid}'') = Inr (fallback (js ''{\"summary\": invalid}''))"
    using decode_reply_cases [of "js ''{\"summary\": invalid}''"] m e by blast
  show ?thesis
    using 1 2 3 unfolding s by blast
qed

text \<open>
  Prose with braces of its own: the match runs from the first opening brace of the reply
  to its last closing brace, so the embedded object is not what is parsed.
\<close>

theorem decode_reply_prose_counterexample:
  "decode_reply (js ''Result {draft}: {\"summary\":\"A\",\"key_points\":[\"x\",\"y\"]}'') \<noteq>
       Inr (JObj [(js ''summary'', JStr (js ''A'')),
         (js ''key_points'', JArr [JStr (js ''x''), JStr (js ''y'')])])"
  by code_simp

section \<open>Properties of the parser\<close>

text \<open>
  What the match parses to, when it parses, is an object: the match starts with an opening
  brace, so the automaton's bottom frame is an object frame until the value is complete.
\<close>

lemma deliver_obj_inv: "bottom_obj st \<Longrightarrow> deliver v st = Some s' \<Longrightarrow> obj_inv s'"
  by (induction v st rule: deliver.induct) (auto simp: bottom_obj_def split: if_splits)

lemma deliver_object: "is_object v \<Longrightarrow> deliver v [] = Some s' \<Longrightarrow> obj_inv s'"
  by auto

lemma start_value_obj_inv: "bottom_obj st \<Longrightarrow> start_value t st = Some s' \<Longrightarrow> obj_inv s'"
  by (cases t) (auto simp: deliver_obj_inv bottom_obj_def)

lemma close_array_obj_inv: "bottom_obj st \<Longrightarrow> close_array st = Some s' \<Longrightarrow> obj_inv s'"
proof (induction st rule: close_array.induct)
  case (1 es st)
  then have "bottom_obj st" by (auto simp: bottom_obj_def split: if_splits)
  with 1 show ?case by (simp add: deliver_obj_inv)
qed simp_all

lemma close_object_obj_inv: "bottom_obj st \<Longrightarrow> close_object st = Some s' \<Longrightarrow> obj_inv s'"
proof (induction st rule: close_object.induct)
  case (1 ms st)
  show ?case
  proof (cases st)
    case Nil
    with 1 show ?thesis by auto
  next
    case (Cons g gs)
    with 1 have "bottom_obj st" by (auto simp: bottom_obj_def)
    with 1 show ?thesis by (simp add: deliver_obj_inv)
  qed
qed simp_all

lemma read_key_obj_inv: "bottom_obj st \<Longrightarrow> read_key t st = Some s' \<Longrightarrow> obj_inv s'"
  by (induction t st rule: read_key.induct) (auto simp: bottom_obj_def)

lemma after_comma_obj_inv: "bottom_obj st \<Longrightarrow> after_comma st = Some s' \<Longrightarrow> obj_inv s'"
  by (induction st rule: after_comma.induct) auto

lemma step_obj_inv: "obj_inv s \<Longrightarrow> step s t = Some s' \<Longrightarrow> obj_inv s'"
  by (induction s t rule: step.induct)
    (auto simp: start_value_obj_inv close_array_obj_inv close_object_obj_inv read_key_obj_inv
      after_comma_obj_inv split: if_splits)

lemma run_obj_inv: "obj_inv s \<Longrightarrow> run s ts = Some s' \<Longrightarrow> obj_inv s'"
proof (induction ts arbitrary: s)
  case Nil
  then show ?case by simp
next
  case (Cons t ts)
  then show ?case by (auto split: option.splits dest: step_obj_inv)
qed

lemma parse_tokens_object:
  assumes "parse_tokens (TLBrace # ts) = Some v"
  shows "is_object v"
proof -
  from assms obtain st where r: "run (EKeyOrClose, [FObj [] None]) ts = Some (EDone v, st)"
    by (auto simp: parse_tokens_def split: option.splits prod.splits expect.splits)
  have "obj_inv (EKeyOrClose, [FObj [] None])"
    by (simp add: bottom_obj_def)
  from run_obj_inv [OF this r] show ?thesis by simp
qed

lemma lex_open_brace: "lex (0x7B # cs) = Some ts \<Longrightarrow> \<exists>ts'. ts = TLBrace # ts'"
  by (subst (asm) lex.simps) (auto simp: is_json_ws_def)

lemma JSON_parse_object: "JSON_parse (0x7B # cs) = Inr v \<Longrightarrow> is_object v"
  by (auto simp: JSON_parse_def split: option.splits dest!: lex_open_brace dest: parse_tokens_object)

lemma regex_match_open_brace: "regex_match raw = Some m \<Longrightarrow> \<exists>cs. m = 0x7B # cs"
  by (induction raw) (auto split: option.splits if_splits)

section \<open>Properties of the returned result\<close>

lemma decode_reply_empty_object: "decode_reply (js ''{}'') = Inr (JObj [])"
  by code_simp

text \<open>
  C4 (amended). When the text payload is absent from the envelope (undefined or null),
  the decoder takes the string \<open>{}\<close> as the raw reply, not the empty string: it
  matches and parses, and the result is the empty object, with no \<open>summary\<close> and no
  \<open>key_points\<close>.
\<close>

theorem decode_envelope_absent_text:
  assumes "envelope_text json = None \<or> envelope_text json = Some JNull"
  shows "decode_envelope json = decode_reply (js ''{}'') \<and> decode_envelope json = Inr (JObj [])"
  using assms by (auto simp: decode_envelope_def decode_reply_empty_object)

theorem decode_envelope_absent_text_witness:
  "decode_envelope (JObj []) = Inr (JObj [])
   \<and> decode_envelope (JObj [(js ''candidates'', JArr [JObj [(js ''content'',
        JObj [(js ''parts'', JArr [JObj [(js ''text'', JNull)]])])]])]) = Inr (JObj [])"
proof -
  have 1: "envelope_text (JObj []) = None"
    by (simp add: envelope_text_def)
  have 2: "envelope_text (JObj [(js ''candidates'', JArr [JObj [(js ''content'',
        JObj [(js ''parts'', JArr [JObj [(js ''text'', JNull)]])])]])]) = Some JNull"
    by (simp add: envelope_text_def)
  show ?thesis
    using decode_envelope_absent_text [of "JObj []"] 1
      decode_envelope_absent_text [of "JObj [(js ''candidates'', JArr [JObj [(js ''content'',
        JObj [(js ''parts'', JArr [JObj [(js ''text'', JNull)]])])]])]"] 2
    by blast
qed

text \<open>
  The claim as stated: an absent payload would decode as the empty reply does, to
  \<open>{summary: "", key_points: []}\<close>.
\<close>

theorem decode_envelope_absent_text_counterexample:
  "envelope_text (JObj []) = None
   \<and> decode_reply [] = Inr (fallback [])
   \<and> decode_envelope (JObj []) \<noteq> Inr (fallback [])"
proof -
  have 1: "envelope_text (JObj []) = None"
    by (simp add: envelope_text_def)
  have 2: "decode_reply [] = Inr (fallback [])"
    by (simp add: decode_reply_def)
  have "decode_envelope (JObj []) = Inr (JObj [])"
    by (simp add: decode_envelope_def 1 decode_reply_empty_object)
  then have 3: "decode_envelope (JObj []) \<noteq> Inr (fallback [])"
    by (simp add: fallback_def)
  show ?thesis
    using 1 2 3 by blast
qed

lemma well_formed_fallback: "well_formed_result (fallback raw)"
  by (simp add: well_formed_result_def fallback_def js_def)

lemma decode_reply_shape:
  "decode_reply raw = Inr v \<Longrightarrow>
   v = fallback raw \<or> (\<exists>m. regex_match raw = Some m \<and> JSON_parse m = Inr v \<and> is_object v)"
  by (auto simp: decode_reply_def split: option.splits sum.splits
      dest: regex_match_open_brace JSON_parse_object)

text \<open>
  C5 (amended). Every value the summarization client returns comes from the raw reply it
  received: the text payload of the parsed response body, or the string \<open>{}\<close> when
  that payload is absent. When the raw reply has no JSON-like substring, or its
  JSON-like substring does not parse, the value is the fallback pair
  \<open>{summary: raw, key_points: []}\<close>, which is well formed. Otherwise the value is the
  object that \<open>JSON.parse\<close> gave for the matched substring, returned as it is: its
  fields are not validated.
\<close>

theorem summariseWithGemini_result_shape:
  assumes "fst (summariseWithGemini KEY eng t l) = Inr v"
  shows "\<exists>res json raw.
      fetch eng (build_request KEY (build_prompt (select_target l) t)) = Inr res
    \<and> JSON_parse (body res) = Inr json
    \<and> (envelope_text json = Some (JStr raw)
        \<or> (envelope_text json = None \<or> envelope_text json = Some JNull) \<and> raw = js ''{}'')
    \<and> well_formed_result (fallback raw)
    \<and> (case regex_match raw of
          None \<Rightarrow> v = fallback raw
        | Some m \<Rightarrow>
            (case JSON_parse m of
               Inl e \<Rightarrow> v = fallback raw
             | Inr p \<Rightarrow> v = p \<and> is_object p))"
proof -
  let ?req = "build_request KEY (build_prompt (select_target l) t)"
  from assms obtain res json where res: "fetch eng ?req = Inr res"
    and json: "JSON_parse (body res) = Inr json" and env: "decode_envelope json = Inr v"
    by (auto simp: summariseWithGemini_def Let_def split: sum.splits if_splits)
  from env obtain raw where raw: "envelope_text json = Some (JStr raw)
        \<or> (envelope_text json = None \<or> envelope_text json = Some JNull) \<and> raw = js ''{}''"
    and dec: "decode_reply raw = Inr v"
    by (auto simp: decode_envelope_def Let_def split: option.splits json.splits)
  have shape: "case regex_match raw of
          None \<Rightarrow> v = fallback raw
        | Some m \<Rightarrow>
            (case JSON_parse m of
               Inl e \<Rightarrow> v = fallback raw
             | Inr p \<Rightarrow> v = p \<and> is_object p)"
    using dec
    by (auto simp: decode_reply_def split: option.splits sum.splits
        dest: regex_match_open_brace JSON_parse_object)
  show ?thesis
    using res json raw well_formed_fallback [of raw] shape by blast
qed

lemma summariseWithGemini_sample:
  assumes "JSON_parse reply = Inr json"
  shows "fst (summariseWithGemini (Some (js ''k'')) (sample_eng empty_pdf reply) t l)
    = decode_envelope json"
proof -
  have "mustKey (Some (js ''k'')) = Inr ()"
    by (simp add: mustKey_def js_def)
  then show ?thesis
    using assms by (simp add: summariseWithGemini_def Let_def sample_eng_def)
qed

theorem summariseWithGemini_result_shape_witness:
  "\<exists>res json raw.
      fetch (sample_eng empty_pdf
          (js ''{\"candidates\":[{\"content\":{\"parts\":[{\"text\":\"plain words\"}]}}]}''))
        (build_request (Some (js ''k'')) (build_prompt (select_target None) (js ''some text'')))
        = Inr res
    \<and> JSON_parse (body res) = Inr json
    \<and> (envelope_text json = Some (JStr raw)
        \<or> (envelope_text json = None \<or> envelope_text json = Some JNull) \<and> raw = js ''{}'')
    \<and> well_formed_result (fallback raw)
    \<and> (case regex_match raw of
          None \<Rightarrow>
            JObj [(js ''summary'', JStr (js ''plain words'')), (js ''key_points'', JArr [])]
              = fallback raw
        | Some m \<Rightarrow>
            (case JSON_parse m of
               Inl e \<Rightarrow>
                 JObj [(js ''summary'', JStr (js ''plain words'')), (js ''key_points'', JArr [])]
                   = fallback raw
             | Inr p \<Rightarrow>
                 JObj [(js ''summary'', JStr (js ''plain words'')), (js ''key_points'', JArr [])]
                   = p \<and> is_object p))"
proof -
  let ?reply = "js ''{\"candidates\":[{\"content\":{\"parts\":[{\"text\":\"plain words\"}]}}]}''"
  let ?json = "JObj [(js ''candidates'', JArr [JObj [(js ''content'',
        JObj [(js ''parts'', JArr [JObj [(js ''text'', JStr (js ''plain words''))]])])]])]"
  have p: "JSON_parse ?reply = Inr ?json"
    by code_simp
  have d: "decode_envelope ?json
      = Inr (JObj [(js ''summary'', JStr (js ''plain words'')), (js ''key_points'', JArr [])])"
    by code_simp
  have "fst (summariseWithGemini (Some (js ''k'')) (sample_eng empty_pdf ?reply)
      (js ''some text'') None)
    = Inr (JObj [(js ''summary'', JStr (js ''plain words'')), (js ''key_points'', JArr [])])"
    using summariseWithGemini_sample [OF p] d by simp
  from summariseWithGemini_result_shape [OF this] show ?thesis .
qed

text \<open>
  The claim as stated: with the reply \<open>{}\<close> (here the default for an absent payload)
  the client returns the empty object, which has neither field.
\<close>

theorem summariseWithGemini_result_shape_counterexample:
  "fst (summariseWithGemini (Some (js ''k'')) (sample_eng empty_pdf (js ''{}''))
      (js ''some text'') None) = Inr (JObj [])
   \<and> \<not> well_formed_result (JObj [])"
proof -
  have p: "JSON_parse (js ''{}'') = Inr (JObj [])"
    by code_simp
  have d: "decode_envelope (JObj []) = Inr (JObj [])"
    by code_simp
  have w: "\<not> well_formed_result (JObj [])"
    by (simp add: well_formed_result_def)
  show ?thesis
    using summariseWithGemini_sample [OF p, of "js ''some text''" None] d w by simp
qed

section \<open>Properties of the length directive\<close>

text \<open>
  The directive chosen for a length value: as documented for the three names, for an
  omitted length and for every other value that names no member of
  \<open>Object.prototype\<close>.
\<close>

lemma select_target_mapping:
  "select_target (Some (js ''short'')) = TString (approx # js ''80-120 words'')
   \<and> select_target (Some (js ''medium'')) = TString (approx # js ''150-250 words'')
   \<and> select_target (Some (js ''long'')) = TString (approx # js ''300-450 words'')
   \<and> select_target None = TString (approx # js ''150-250 words'')
   \<and> (l \<noteq> js ''short'' \<and> l \<noteq> js ''long'' \<and> l \<notin> set Object_prototype_names \<longrightarrow>
        select_target (Some l) = TString (approx # js ''150-250 words''))"
  by (auto simp: select_target_def table_lookup_def length_table_def js_def)

text \<open>
  C8, at the length value \<open>constructor\<close>: the lookup finds the member the object literal
  inherits, which is truthy, so the medium directive is not used and the prompt differs
  from the prompt of the medium length.
\<close>

theorem select_target_inherited:
  "select_target (Some (js ''constructor'')) = TInherited (js ''constructor'')
   \<and> select_target (Some (js ''constructor'')) \<noteq> TString (approx # js ''150-250 words'')
   \<and> prompt_head (select_target (Some (js ''constructor''))) \<noteq> prompt_head (select_target None)"
proof -
  have s: "select_target (Some (js ''constructor'')) = TInherited (js ''constructor'')"
    by code_simp
  have r1: "render_target (TInherited (js ''constructor''))
      = js ''function Object() { [native code] }''"
    by code_simp
  have r2: "render_target (select_target None) = approx # js ''150-250 words''"
    by code_simp
  have "js ''function Object() { [native code] }'' \<noteq> approx # js ''150-250 words''"
    by (simp add: js_def approx_def)
  then have "prompt_head (select_target (Some (js ''constructor''))) \<noteq> prompt_head (select_target None)"
    by (simp add: prompt_head_def s r1 r2)
  with s show ?thesis
    by simp
qed

end
